theory Spec2Isabelle
  imports Complex_Main
begin

section \<open>Scalars and tensors\<close>

text \<open>
  The script \<^verbatim>\<open>find-exp-torch.py\<close> computes on one-dimensional torch tensors of
  single-precision numbers. A scalar of the model is a real number or one of the three
  special values of IEEE arithmetic; the arithmetic on the real numbers is exact, so
  rounding, overflow and underflow of the machine numbers are not part of the model, and
  zero has no sign. A tensor is the list of its elements. The library of the script's time
  returns one-element tensors from \<^verbatim>\<open>sum\<close> and \<^verbatim>\<open>mean\<close>, which is why the
  script reads \<^verbatim>\<open>loss.data[0]\<close>.
\<close>

datatype scalar = Fin real | PInf | NInf | NaN

type_synonym tensor = "scalar list"

datatype error = SizeMismatch | IndexError | NoGradient

section \<open>The library's arithmetic on scalars\<close>

fun fneg :: "scalar \<Rightarrow> scalar" where
  "fneg (Fin a) = Fin (- a)"
| "fneg PInf = NInf"
| "fneg NInf = PInf"
| "fneg NaN = NaN"

fun fadd :: "scalar \<Rightarrow> scalar \<Rightarrow> scalar" where
  "fadd (Fin a) (Fin b) = Fin (a + b)"
| "fadd NaN _ = NaN"
| "fadd _ NaN = NaN"
| "fadd PInf NInf = NaN"
| "fadd NInf PInf = NaN"
| "fadd PInf _ = PInf"
| "fadd NInf _ = NInf"
| "fadd (Fin a) PInf = PInf"
| "fadd (Fin a) NInf = NInf"

definition fsub :: "scalar \<Rightarrow> scalar \<Rightarrow> scalar" where
  "fsub a b = fadd a (fneg b)"

definition signed_inf :: "bool \<Rightarrow> scalar" where
  "signed_inf positive = (if positive then PInf else NInf)"

fun fmul :: "scalar \<Rightarrow> scalar \<Rightarrow> scalar" where
  "fmul (Fin a) (Fin b) = Fin (a * b)"
| "fmul NaN _ = NaN"
| "fmul _ NaN = NaN"
| "fmul PInf (Fin b) = (if b = 0 then NaN else signed_inf (0 < b))"
| "fmul NInf (Fin b) = (if b = 0 then NaN else signed_inf (b < 0))"
| "fmul (Fin a) PInf = (if a = 0 then NaN else signed_inf (0 < a))"
| "fmul (Fin a) NInf = (if a = 0 then NaN else signed_inf (a < 0))"
| "fmul PInf PInf = PInf"
| "fmul NInf NInf = PInf"
| "fmul PInf NInf = NInf"
| "fmul NInf PInf = NInf"

fun fdiv :: "scalar \<Rightarrow> scalar \<Rightarrow> scalar" where
  "fdiv (Fin a) (Fin b) =
     (if b \<noteq> 0 then Fin (a / b) else if a = 0 then NaN else signed_inf (0 < a))"
| "fdiv NaN _ = NaN"
| "fdiv _ NaN = NaN"
| "fdiv (Fin a) PInf = Fin 0"
| "fdiv (Fin a) NInf = Fin 0"
| "fdiv PInf (Fin b) = signed_inf (0 \<le> b)"
| "fdiv NInf (Fin b) = signed_inf (b < 0)"
| "fdiv PInf _ = NaN"
| "fdiv NInf _ = NaN"

fun fsqrt :: "scalar \<Rightarrow> scalar" where
  "fsqrt (Fin a) = (if a < 0 then NaN else Fin (sqrt a))"
| "fsqrt PInf = PInf"
| "fsqrt NInf = NaN"
| "fsqrt NaN = NaN"

definition is_int :: "real \<Rightarrow> bool" where
  "is_int e = (e = of_int \<lfloor>e\<rfloor>)"

definition is_odd_int :: "real \<Rightarrow> bool" where
  "is_odd_int e = (is_int e \<and> odd \<lfloor>e\<rfloor>)"

text \<open>
  The power of two finite numbers, neither the exponent zero nor the base one: a positive
  base has every real power; zero to a negative power is infinite; a negative base has its
  integer powers only, and the library answers NaN for the others.
\<close>

definition pow_fin :: "real \<Rightarrow> real \<Rightarrow> scalar" where
  "pow_fin a e =
     (if 0 < a then Fin (a powr e)
      else if a = 0 then (if 0 < e then Fin 0 else PInf)
      else if is_int e then Fin (a powi \<lfloor>e\<rfloor>)
      else NaN)"

fun fpow :: "scalar \<Rightarrow> scalar \<Rightarrow> scalar" where
  "fpow (Fin a) (Fin e) = (if e = 0 \<or> a = 1 then Fin 1 else pow_fin a e)"
| "fpow NaN (Fin e) = (if e = 0 then Fin 1 else NaN)"
| "fpow PInf (Fin e) = (if e = 0 then Fin 1 else if e < 0 then Fin 0 else PInf)"
| "fpow NInf (Fin e) =
     (if e = 0 then Fin 1 else if e < 0 then Fin 0
      else if is_odd_int e then NInf else PInf)"
| "fpow (Fin a) NaN = (if a = 1 then Fin 1 else NaN)"
| "fpow (Fin a) PInf =
     (if \<bar>a\<bar> = 1 then Fin 1 else if \<bar>a\<bar> < 1 then Fin 0 else PInf)"
| "fpow (Fin a) NInf =
     (if \<bar>a\<bar> = 1 then Fin 1 else if \<bar>a\<bar> < 1 then PInf else Fin 0)"
| "fpow PInf PInf = PInf"
| "fpow PInf NInf = Fin 0"
| "fpow NInf PInf = PInf"
| "fpow NInf NInf = Fin 0"
| "fpow _ NaN = NaN"
| "fpow NaN _ = NaN"

section \<open>The library's operations on tensors\<close>

text \<open>
  An operation on two tensors works element by element and needs tensors of one size; the
  script only ever combines tensors of one size.
\<close>

definition elementwise :: "(scalar \<Rightarrow> scalar \<Rightarrow> scalar) \<Rightarrow> tensor \<Rightarrow> tensor \<Rightarrow> error + tensor" where
  "elementwise f a b =
     (if length a = length b then Inr (map2 f a b) else Inl SizeMismatch)"

definition tensor_sub :: "tensor \<Rightarrow> tensor \<Rightarrow> error + tensor" where
  "tensor_sub a b = elementwise fsub a b"

definition tensor_add :: "tensor \<Rightarrow> tensor \<Rightarrow> error + tensor" where
  "tensor_add a b = elementwise fadd a b"

definition tensor_pow :: "tensor \<Rightarrow> tensor \<Rightarrow> error + tensor" where
  "tensor_pow a b = elementwise fpow a b"

definition pow_number :: "tensor \<Rightarrow> real \<Rightarrow> tensor" where
  "pow_number a c = map (\<lambda>v. fpow v (Fin c)) a"

definition mul_number :: "tensor \<Rightarrow> real \<Rightarrow> tensor" where
  "mul_number a c = map (\<lambda>v. fmul v (Fin c)) a"

definition sum_all :: "tensor \<Rightarrow> scalar" where
  "sum_all a = foldl fadd (Fin 0) a"

definition tensor_sum :: "tensor \<Rightarrow> tensor" where
  "tensor_sum a = [sum_all a]"

definition tensor_mean :: "tensor \<Rightarrow> tensor" where
  "tensor_mean a = [fdiv (sum_all a) (Fin (real (length a)))]"

definition tensor_sqrt :: "tensor \<Rightarrow> tensor" where
  "tensor_sqrt a = map fsqrt a"

definition repeat :: "tensor \<Rightarrow> nat \<Rightarrow> tensor" where
  "repeat a k = concat (replicate k a)"

definition size0 :: "tensor \<Rightarrow> nat" where
  "size0 a = length a"

definition item0 :: "tensor \<Rightarrow> error + scalar" where
  "item0 a = (case a of [] \<Rightarrow> Inl IndexError | v # _ \<Rightarrow> Inr v)"

definition zero_tensor :: "tensor \<Rightarrow> tensor" where
  "zero_tensor a = map (\<lambda>_. Fin 0) a"

section \<open>The script's two functions\<close>

text \<open>
  \<^verbatim>\<open>return torch.sqrt(torch.mean((y - y_hat).pow(2).sum()))\<close>
\<close>

definition rmse :: "tensor \<Rightarrow> tensor \<Rightarrow> error + tensor" where
  "rmse y y_hat =
     (case tensor_sub y y_hat of
        Inl err \<Rightarrow> Inl err
      | Inr d \<Rightarrow> Inr (tensor_sqrt (tensor_mean (tensor_sum (pow_number d 2)))))"

text \<open>
  \<^verbatim>\<open>return x.pow(e.repeat(x.size(0)))\<close>
\<close>

definition forward :: "tensor \<Rightarrow> tensor \<Rightarrow> error + tensor" where
  "forward x e = tensor_pow x (repeat e (size0 x))"

section \<open>The script\<close>

text \<open>
  The settings of the script. The name \<^verbatim>\<open>n\<close> of the source is \<open>n_examples\<close> here.
\<close>

definition n_examples :: nat where
  "n_examples = 100"

definition learning_rate :: real where
  "learning_rate = 5 / 1000000"

definition target_exp :: real where
  "target_exp = 2"

text \<open>
  The variables of the script that live across the loop are the fields of the state; the
  source's \<^verbatim>\<open>x\<close>, \<^verbatim>\<open>y\<close> and \<^verbatim>\<open>exp\<close> are \<open>x_var\<close>, \<open>y_var\<close>
  and \<open>exp_var\<close>. The gradient of \<^verbatim>\<open>exp_hat\<close> does not exist before the first
  backward pass. The lines the script prints are kept as values, not as text.
\<close>

datatype line = Iteration_line nat | Loss_line scalar | Exp_line scalar

record state =
  x_var :: tensor
  exp_var :: tensor
  exp_hat :: tensor
  exp_hat_grad :: "tensor option"
  y_var :: tensor
  loss_history :: "scalar list"
  exp_history :: "scalar list"
  printed :: "line list"

text \<open>
  Two things come from the library and are parameters of the model. The random generator
  \<^verbatim>\<open>torch.rand\<close> is a function from the number of samples asked for to the tensor
  drawn. The differentiation behind \<^verbatim>\<open>loss.backward()\<close> is a function from the
  samples, the targets and the value of the estimate, out of which the loss was computed,
  to the derivative of the loss with respect to the estimate.
\<close>

type_synonym generator = "nat \<Rightarrow> tensor"

type_synonym autograd = "tensor \<Rightarrow> tensor \<Rightarrow> scalar \<Rightarrow> scalar"

definition and_then :: "error + 'a \<Rightarrow> ('a \<Rightarrow> error + 'b) \<Rightarrow> error + 'b" where
  "and_then r f = (case r of Inl err \<Rightarrow> Inl err | Inr v \<Rightarrow> f v)"

text \<open>
  \<^verbatim>\<open>loss.backward()\<close>: the gradient has the shape of the estimate, a tensor of one
  element. It is added to the gradient already stored, or stored when there is none yet.
\<close>

definition backward :: "autograd \<Rightarrow> state \<Rightarrow> error + state" where
  "backward ag s =
     (let g = map (ag (x_var s) (y_var s)) (exp_hat s) in
      case exp_hat_grad s of
        None \<Rightarrow> Inr (s\<lparr>exp_hat_grad := Some g\<rparr>)
      | Some acc \<Rightarrow> and_then (tensor_add acc g) (\<lambda>t. Inr (s\<lparr>exp_hat_grad := Some t\<rparr>)))"

text \<open>
  \<^verbatim>\<open>exp_hat.data -= learning_rate * exp_hat.grad.data\<close>
\<close>

definition update :: "state \<Rightarrow> error + state" where
  "update s =
     (case exp_hat_grad s of
        None \<Rightarrow> Inl NoGradient
      | Some g \<Rightarrow>
          and_then (tensor_sub (exp_hat s) (mul_number g learning_rate))
            (\<lambda>t. Inr (s\<lparr>exp_hat := t\<rparr>)))"

text \<open>
  \<^verbatim>\<open>exp_hat.grad.data.zero_()\<close>
\<close>

definition zero_grad :: "state \<Rightarrow> error + state" where
  "zero_grad s =
     (case exp_hat_grad s of
        None \<Rightarrow> Inl NoGradient
      | Some g \<Rightarrow> Inr (s\<lparr>exp_hat_grad := Some (zero_tensor g)\<rparr>))"

text \<open>
  The body of the loop, statement by statement in the order of the source:
  \<^verbatim>\<open>
    print("Iteration %d" % i)
    y_hat = forward(x, exp_hat)
    loss = rmse(y, y_hat)
    loss_history.append(loss.data[0])
    exp_history.append(y_hat.data[0])
    loss.backward()
    print("loss = %s" % loss.data[0])
    print("exp = %s" % exp_hat.data[0])
    exp_hat.data -= learning_rate * exp_hat.grad.data
    exp_hat.grad.data.zero_()
  \<close>
\<close>

definition iteration :: "autograd \<Rightarrow> nat \<Rightarrow> state \<Rightarrow> error + state" where
  "iteration ag i s0 =
     (let s1 = s0\<lparr>printed := printed s0 @ [Iteration_line i]\<rparr> in
      and_then (forward (x_var s1) (exp_hat s1)) (\<lambda>y_hat.
      and_then (rmse (y_var s1) y_hat) (\<lambda>loss.
      and_then (item0 loss) (\<lambda>loss0.
      let s2 = s1\<lparr>loss_history := loss_history s1 @ [loss0]\<rparr> in
      and_then (item0 y_hat) (\<lambda>y_hat0.
      let s3 = s2\<lparr>exp_history := exp_history s2 @ [y_hat0]\<rparr> in
      and_then (backward ag s3) (\<lambda>s4.
      and_then (item0 loss) (\<lambda>loss0'.
      let s5 = s4\<lparr>printed := printed s4 @ [Loss_line loss0']\<rparr> in
      and_then (item0 (exp_hat s5)) (\<lambda>e0.
      let s6 = s5\<lparr>printed := printed s5 @ [Exp_line e0]\<rparr> in
      and_then (update s6) zero_grad))))))))"

text \<open>
  \<^verbatim>\<open>for i in range(0, 200):\<close> runs the body once for each index, in order; an
  exception would end the run.
\<close>

fun run_loop :: "autograd \<Rightarrow> nat list \<Rightarrow> state \<Rightarrow> error + state" where
  "run_loop ag [] s = Inr s"
| "run_loop ag (i # rest) s = and_then (iteration ag i s) (run_loop ag rest)"

definition training_loop :: "autograd \<Rightarrow> state \<Rightarrow> error + state" where
  "training_loop ag s = run_loop ag [0..<200] s"

text \<open>
  The statements before the loop:
  \<^verbatim>\<open>
    x = Variable(torch.rand(n) * 10, requires_grad=False)
    exp = Variable(torch.FloatTensor([target_exp]), requires_grad=False)
    exp_hat = Variable(torch.FloatTensor([4]), requires_grad=True)
    y = forward(x, exp)
    loss_history = []
    exp_history = []
  \<close>
\<close>

definition initial_state :: "generator \<Rightarrow> error + state" where
  "initial_state rand =
     (let x = mul_number (rand n_examples) 10;
          e = [Fin target_exp];
          e_hat = [Fin 4]
      in and_then (forward x e) (\<lambda>y.
           Inr \<lparr>x_var = x, exp_var = e, exp_hat = e_hat, exp_hat_grad = None,
                y_var = y, loss_history = [], exp_history = [], printed = []\<rparr>))"

definition script :: "autograd \<Rightarrow> generator \<Rightarrow> error + state" where
  "script ag rand = and_then (initial_state rand) (training_loop ag)"

section \<open>Definitions for the proofs\<close>

text \<open>
  The state of the script after its first \<open>k\<close> iterations.
\<close>

definition state_after :: "autograd \<Rightarrow> generator \<Rightarrow> nat \<Rightarrow> error + state" where
  "state_after ag rand k = and_then (initial_state rand) (run_loop ag [0..<k])"

text \<open>
  The invariant of the loop: the estimate has one element, there is at least one sample and
  one target for each sample, and the stored gradient is absent or zero.
\<close>

definition loop_ready :: "state \<Rightarrow> bool" where
  "loop_ready s =
     (length (exp_hat s) = 1 \<and> x_var s \<noteq> [] \<and> length (y_var s) = length (x_var s) \<and>
      (case exp_hat_grad s of None \<Rightarrow> True | Some g \<Rightarrow> g = [Fin 0]))"

text \<open>
  What one iteration makes of a state that satisfies the invariant, in closed form; the
  lemma \<open>iteration_next\<close> below proves that the body of the loop computes it.
\<close>

definition next_state :: "autograd \<Rightarrow> nat \<Rightarrow> state \<Rightarrow> state" where
  "next_state ag i s =
     (let e = hd (exp_hat s);
          y_hat = map (\<lambda>v. fpow v e) (x_var s);
          l = fsqrt (sum_all (map2 (\<lambda>a b. fmul (fsub a b) (fsub a b)) (y_var s) y_hat));
          g = ag (x_var s) (y_var s) e
      in s\<lparr>printed := printed s @ [Iteration_line i, Loss_line l, Exp_line e],
            loss_history := loss_history s @ [l],
            exp_history := exp_history s @ [hd y_hat],
            exp_hat := [fsub e (fmul g (Fin learning_rate))],
            exp_hat_grad := Some [Fin 0]\<rparr>)"

text \<open>
  The indices of the iterations announced on the console, in the order printed.
\<close>

fun iterations_printed :: "line list \<Rightarrow> nat list" where
  "iterations_printed [] = []"
| "iterations_printed (Iteration_line i # ls) = i # iterations_printed ls"
| "iterations_printed (_ # ls) = iterations_printed ls"

abbreviation steps :: "autograd \<Rightarrow> nat list \<Rightarrow> state \<Rightarrow> state" where
  "steps ag idx s \<equiv> foldl (\<lambda>t i. next_state ag i t) s idx"

section \<open>The loss as a function of the estimate, and its gradient\<close>







section \<open>Facts about the arithmetic\<close>

lemma fpow_two: "fpow v (Fin 2) = fmul v v"
  by (cases v) (auto simp: pow_fin_def is_int_def is_odd_int_def power2_eq_square not_less)

lemma fdiv_one: "fdiv s (Fin 1) = s"
  by (cases s) (auto simp: signed_inf_def)

lemma fadd_zero_left: "fadd (Fin 0) s = s"
  by (cases s) auto

lemma sum_all_single: "sum_all [s] = s"
  by (simp add: sum_all_def fadd_zero_left)

lemma foldl_fadd_Fin: "foldl fadd (Fin a) (map Fin rs) = Fin (a + sum_list rs)"
  by (induction rs arbitrary: a) (auto simp: algebra_simps)

lemma sum_all_Fin: "sum_all (map Fin rs) = Fin (sum_list rs)"
  by (simp add: sum_all_def foldl_fadd_Fin)

lemma squared_differences_Fin:
  "map2 (\<lambda>a b. fmul (fsub a b) (fsub a b)) (map Fin ys) (map Fin hs) =
   map Fin (map2 (\<lambda>a b. (a - b)\<^sup>2) ys hs)"
  by (induction ys hs rule: list_induct2') (auto simp: fsub_def power2_eq_square)

section \<open>Facts about the two functions\<close>

lemma repeat_single: "repeat [e] k = replicate k e"
  by (induction k) (auto simp: repeat_def)

lemma map2_replicate: "length x = k \<Longrightarrow> map2 f x (replicate k e) = map (\<lambda>v. f v e) x"
  by (induction x arbitrary: k) auto

lemma forward_single: "forward x [e] = Inr (map (\<lambda>v. fpow v e) x)"
  by (simp add: forward_def tensor_pow_def elementwise_def size0_def repeat_single map2_replicate)

lemma rmse_general:
  "length y = length y_hat \<Longrightarrow>
   rmse y y_hat = Inr [fsqrt (sum_all (map2 (\<lambda>a b. fmul (fsub a b) (fsub a b)) y y_hat))]"
  by (simp add: rmse_def tensor_sub_def elementwise_def tensor_sqrt_def tensor_mean_def
      tensor_sum_def pow_number_def fpow_two fdiv_one sum_all_single map_zip_map2 o_def split_def)

lemma sum_squares_nonneg: "0 \<le> sum_list (map2 (\<lambda>a b. (a - b)\<^sup>2) ys (hs :: real list))"
  by (rule sum_list_nonneg) auto

lemma rmse_Fin:
  "length ys = length hs \<Longrightarrow>
   rmse (map Fin ys) (map Fin hs) = Inr [Fin (sqrt (sum_list (map2 (\<lambda>a b. (a - b)\<^sup>2) ys hs)))]"
proof -
  assume "length ys = length hs"
  then have "rmse (map Fin ys) (map Fin hs) =
      Inr [fsqrt (sum_all (map Fin (map2 (\<lambda>a b. (a - b)\<^sup>2) ys hs)))]"
    by (simp only: rmse_general length_map squared_differences_Fin)
  also have "\<dots> = Inr [fsqrt (Fin (sum_list (map2 (\<lambda>a b. (a - b)\<^sup>2) ys hs)))]"
    by (simp only: sum_all_Fin)
  finally show ?thesis
    using sum_squares_nonneg [of ys hs] by simp
qed

section \<open>The loss function\<close>



section \<open>The forward function\<close>

text \<open>
  Claim C3. For every input tensor and every scalar exponent, \<open>forward\<close> returns a tensor
  of the input's length whose element at each index is the library's power of the input's
  element at that index to the exponent. In particular \<open>forward\<close> of 2, 3 and the
  exponent 3 is 8, 27.
\<close>

theorem forward_elementwise_power:
  "(\<exists>out. forward x [e] = Inr out \<and> length out = length x \<and>
      (\<forall>i<length x. out ! i = fpow (x ! i) e)) \<and>
   forward [Fin 2, Fin 3] [Fin 3] = Inr [Fin 8, Fin 27]"
proof (intro conjI)
  show "\<exists>out. forward x [e] = Inr out \<and> length out = length x \<and>
      (\<forall>i<length x. out ! i = fpow (x ! i) e)"
    by (simp add: forward_single)
next
  show "forward [Fin 2, Fin 3] [Fin 3] = Inr [Fin 8, Fin 27]"
    by (simp add: forward_single pow_fin_def)
qed

theorem forward_elementwise_power_witness:
  "(1::nat) < length [Fin 5, Fin 2] \<and>
   (\<exists>out. forward [Fin 5, Fin 2] [Fin 2] = Inr out \<and> out ! 1 = Fin 4)"
  using forward_elementwise_power [of "[Fin 5, Fin 2]" "Fin 2"]
  by (auto simp: pow_fin_def)

section \<open>The loss is never negative\<close>

lemma fadd_is_Fin: "fadd a b = Fin c \<Longrightarrow> \<exists>u v. a = Fin u \<and> b = Fin v"
  by (cases a; cases b) auto

lemma foldl_fadd_is_Fin:
  "foldl fadd a xs = Fin t \<Longrightarrow> (\<exists>u. a = Fin u) \<and> (\<exists>rs. xs = map Fin rs)"
proof (induction xs arbitrary: a)
  case Nil
  then show ?case by simp
next
  case (Cons x xs)
  from Cons.prems have "foldl fadd (fadd a x) xs = Fin t" by simp
  from Cons.IH [OF this] obtain c rs where c: "fadd a x = Fin c" and rs: "xs = map Fin rs"
    by blast
  from c obtain u v where "a = Fin u" "x = Fin v"
    using fadd_is_Fin by blast
  with rs have A: "a = Fin u" and B: "x # xs = map Fin (v # rs)" by simp_all
  show ?case by (rule conjI, rule exI, rule A, rule exI, rule B)
qed

lemma fsqrt_is_Fin: "fsqrt s = Fin v \<Longrightarrow> \<exists>a. s = Fin a \<and> 0 \<le> a \<and> v = sqrt a"
  by (cases s) (auto split: if_splits)

lemma fsqrt_never_negative: "fsqrt s = NaN \<or> fsqrt s = PInf \<or> (\<exists>v. fsqrt s = Fin v \<and> 0 \<le> v)"
  by (cases s) auto

lemma fmul_self_nonneg: "fmul d d = Fin q \<Longrightarrow> 0 \<le> q"
  by (cases d) auto

lemma zero_sum_of_squares:
  assumes "sum_all (map2 (\<lambda>a b. fmul (fsub a b) (fsub a b)) y y_hat) = Fin 0"
  shows "\<forall>d\<in>set (map2 (\<lambda>a b. fmul (fsub a b) (fsub a b)) y y_hat). d = Fin 0"
proof -
  let ?sq = "map2 (\<lambda>a b. fmul (fsub a b) (fsub a b)) y y_hat"
  from assms obtain rs where rs: "?sq = map Fin rs"
    unfolding sum_all_def using foldl_fadd_is_Fin by blast
  have nonneg: "0 \<le> q" if "q \<in> set rs" for q
  proof -
    from that rs have "Fin q \<in> set ?sq" by simp
    then obtain a b where "fmul (fsub a b) (fsub a b) = Fin q" by auto
    then show ?thesis by (rule fmul_self_nonneg)
  qed
  from assms rs have "sum_list rs = 0"
    by (simp add: sum_all_Fin)
  with nonneg have "\<forall>q\<in>set rs. q = 0"
    by (simp add: sum_list_nonneg_eq_0_iff)
  with rs show ?thesis by simp
qed

lemma rmse_of_equal_finite: "rmse (map Fin ys) (map Fin ys) = Inr [Fin 0]"
proof -
  have "map2 (\<lambda>a b. (a - b)\<^sup>2) ys ys = map (\<lambda>a. 0) ys"
    by (induction ys) auto
  then have "sum_list (map2 (\<lambda>a b. (a - b)\<^sup>2) ys ys) = 0"
    by simp
  then show ?thesis
    by (simp add: rmse_Fin)
qed

text \<open>
  Claim C7, as stated, fails: the result of \<open>rmse\<close> is not always a number that is not
  negative. For the target infinity against the prediction infinity, which match, the
  difference is NaN and so is the loss.
\<close>

theorem rmse_of_infinities_is_NaN: "rmse [PInf] [PInf] = Inr [NaN]"
  by (simp add: rmse_general fsub_def sum_all_def)

text \<open>
  Claim C7, amended. For targets and predictions of one length, \<open>rmse\<close> returns a single
  scalar that is never negative: it is a number that is not negative, or positive infinity,
  or NaN. It is zero only when the squared difference at every element, as the library
  computes it, is zero. For finite targets and predictions that match at every element it
  is zero.
\<close>

theorem rmse_never_negative:
  "(length y = length y_hat \<longrightarrow>
      (\<exists>r. rmse y y_hat = Inr [r] \<and>
           (r = NaN \<or> r = PInf \<or> (\<exists>v. r = Fin v \<and> 0 \<le> v)) \<and>
           (r = Fin 0 \<longrightarrow>
              (\<forall>d\<in>set (map2 (\<lambda>a b. fmul (fsub a b) (fsub a b)) y y_hat). d = Fin 0)))) \<and>
   rmse (map Fin ys) (map Fin ys) = Inr [Fin 0]"
proof -
  let ?sq = "map2 (\<lambda>a b. fmul (fsub a b) (fsub a b)) y y_hat"
  have general: "length y = length y_hat \<longrightarrow>
      (\<exists>r. rmse y y_hat = Inr [r] \<and>
           (r = NaN \<or> r = PInf \<or> (\<exists>v. r = Fin v \<and> 0 \<le> v)) \<and>
           (r = Fin 0 \<longrightarrow> (\<forall>d\<in>set ?sq. d = Fin 0)))"
  proof
    assume l: "length y = length y_hat"
    have result: "rmse y y_hat = Inr [fsqrt (sum_all ?sq)]"
      using l by (rule rmse_general)
    have sign: "fsqrt (sum_all ?sq) = NaN \<or> fsqrt (sum_all ?sq) = PInf \<or>
        (\<exists>v. fsqrt (sum_all ?sq) = Fin v \<and> 0 \<le> v)"
      by (rule fsqrt_never_negative)
    have zero: "fsqrt (sum_all ?sq) = Fin 0 \<longrightarrow> (\<forall>d\<in>set ?sq. d = Fin 0)"
    proof
      assume "fsqrt (sum_all ?sq) = Fin 0"
      then obtain a where "sum_all ?sq = Fin a" "0 \<le> a" "0 = sqrt a"
        using fsqrt_is_Fin by blast
      then have "sum_all ?sq = Fin 0" by simp
      then show "\<forall>d\<in>set ?sq. d = Fin 0"
        by (rule zero_sum_of_squares)
    qed
    from result sign zero
    show "\<exists>r. rmse y y_hat = Inr [r] \<and>
           (r = NaN \<or> r = PInf \<or> (\<exists>v. r = Fin v \<and> 0 \<le> v)) \<and>
           (r = Fin 0 \<longrightarrow> (\<forall>d\<in>set ?sq. d = Fin 0))"
      by blast
  qed
  show ?thesis
    by (rule conjI [OF general rmse_of_equal_finite])
qed

theorem rmse_never_negative_witness:
  "length [Fin 1, Fin 4] = length [Fin 1, Fin 4] \<and>
   rmse [Fin 1, Fin 4] [Fin 1, Fin 4] = Inr [Fin 0] \<and>
   fmul (fsub (Fin 4) (Fin 4)) (fsub (Fin 4) (Fin 4)) = Fin 0 \<and>
   length [Fin 1, Fin 4] = length [Fin 1, Fin 16] \<and>
   rmse [Fin 1, Fin 4] [Fin 1, Fin 16] = Inr [Fin 12]"
proof -
  have twelve: "sqrt 144 = 12"
    by (rule real_sqrt_unique) simp_all
  show ?thesis
    using rmse_never_negative [of "[Fin 1, Fin 4]" "[Fin 1, Fin 4]" "[1, 4]"]
      rmse_never_negative [of "[Fin 1, Fin 4]" "[Fin 1, Fin 16]" "[1, 4]"] twelve
    by (simp add: rmse_general fsub_def sum_all_def)
qed

section \<open>Facts about the loop\<close>

lemma exp_hat_single: "length (exp_hat s) = 1 \<Longrightarrow> exp_hat s = [hd (exp_hat s)]"
  by (cases "exp_hat s") auto

lemma iteration_next:
  assumes "loop_ready s"
  shows "iteration ag i s = Inr (next_state ag i s)"
proof -
  obtain e where e: "exp_hat s = [e]"
    using assms exp_hat_single by (auto simp: loop_ready_def)
  obtain x0 xs where x: "x_var s = x0 # xs"
    using assms by (cases "x_var s") (auto simp: loop_ready_def)
  have len: "length (y_var s) = length (map (\<lambda>v. fpow v e) (x_var s))"
    using assms by (simp add: loop_ready_def)
  have g: "exp_hat_grad s = None \<or> exp_hat_grad s = Some [Fin 0]"
    using assms by (auto simp: loop_ready_def split: option.splits)
  from g show ?thesis
  proof
    assume "exp_hat_grad s = None"
    then show ?thesis
      using e x rmse_general [OF len]
      by (simp add: iteration_def next_state_def and_then_def forward_single item0_def
          backward_def update_def zero_grad_def tensor_sub_def elementwise_def mul_number_def
          zero_tensor_def Let_def)
  next
    assume "exp_hat_grad s = Some [Fin 0]"
    then show ?thesis
      using e x rmse_general [OF len]
      by (simp add: iteration_def next_state_def and_then_def forward_single item0_def
          backward_def update_def zero_grad_def tensor_sub_def tensor_add_def elementwise_def
          mul_number_def zero_tensor_def Let_def fadd_zero_left)
  qed
qed

lemma next_state_ready: "loop_ready s \<Longrightarrow> loop_ready (next_state ag i s)"
  by (simp add: loop_ready_def next_state_def Let_def)

lemma run_loop_append:
  "run_loop ag (idx @ rest) s = and_then (run_loop ag idx s) (run_loop ag rest)"
  by (induction idx arbitrary: s) (auto simp: and_then_def split: sum.splits)

lemma steps_ready: "loop_ready s \<Longrightarrow> loop_ready (steps ag idx s)"
  by (induction idx arbitrary: s) (auto simp: next_state_ready)

lemma run_loop_steps: "loop_ready s \<Longrightarrow> run_loop ag idx s = Inr (steps ag idx s)"
  by (induction idx arbitrary: s) (auto simp: iteration_next next_state_ready and_then_def)

lemma steps_frame:
  "x_var (steps ag idx s) = x_var s \<and> y_var (steps ag idx s) = y_var s \<and>
   exp_var (steps ag idx s) = exp_var s"
  by (induction idx arbitrary: s) (auto simp: next_state_def Let_def)

lemma steps_lengths:
  "length (loss_history (steps ag idx s)) = length (loss_history s) + length idx \<and>
   length (exp_history (steps ag idx s)) = length (exp_history s) + length idx"
  by (induction idx arbitrary: s) (auto simp: next_state_def Let_def)

lemma steps_prefix:
  "\<exists>ls es ps. loss_history (steps ag idx s) = loss_history s @ ls \<and>
     exp_history (steps ag idx s) = exp_history s @ es \<and>
     printed (steps ag idx s) = printed s @ ps"
proof (induction idx arbitrary: s)
  case Nil
  then show ?case by simp
next
  case (Cons i idx)
  obtain ls es ps where
    "loss_history (steps ag idx (next_state ag i s)) = loss_history (next_state ag i s) @ ls"
    "exp_history (steps ag idx (next_state ag i s)) = exp_history (next_state ag i s) @ es"
    "printed (steps ag idx (next_state ag i s)) = printed (next_state ag i s) @ ps"
    using Cons.IH [of "next_state ag i s"] by blast
  then show ?case by (simp add: next_state_def Let_def)
qed

lemma iterations_printed_append:
  "iterations_printed (ps @ qs) = iterations_printed ps @ iterations_printed qs"
  by (induction ps rule: iterations_printed.induct) auto

lemma steps_iterations_printed:
  "iterations_printed (printed (steps ag idx s)) = iterations_printed (printed s) @ idx"
  by (induction idx arbitrary: s)
     (auto simp: next_state_def Let_def iterations_printed_append)

lemma initial_state_eq:
  "initial_state rand =
     Inr \<lparr>x_var = mul_number (rand n_examples) 10, exp_var = [Fin target_exp],
          exp_hat = [Fin 4], exp_hat_grad = None,
          y_var = map (\<lambda>v. fpow v (Fin target_exp)) (mul_number (rand n_examples) 10),
          loss_history = [], exp_history = [], printed = []\<rparr>"
  by (simp add: initial_state_def Let_def forward_single and_then_def)

lemma initial_state_ready:
  "rand n_examples \<noteq> [] \<Longrightarrow> initial_state rand = Inr s \<Longrightarrow> loop_ready s"
  by (auto simp: initial_state_eq loop_ready_def mul_number_def)

lemma drawn_nonempty: "length (r :: tensor) = n_examples \<Longrightarrow> r \<noteq> []"
  by (auto simp: n_examples_def)

text \<open>The state after k iterations, for a generator that returns the samples asked for.\<close>

lemma state_after_steps:
  assumes "length (rand n_examples) = n_examples"
  shows "\<exists>s0. initial_state rand = Inr s0 \<and> loop_ready s0 \<and>
           (\<forall>k. state_after ag rand k = Inr (steps ag [0..<k] s0)) \<and>
           script ag rand = Inr (steps ag [0..<200] s0)"
proof -
  obtain s0 where s0: "initial_state rand = Inr s0"
    using initial_state_eq by blast
  then have ready: "loop_ready s0"
    using initial_state_ready drawn_nonempty [OF assms] by blast
  have "state_after ag rand k = Inr (steps ag [0..<k] s0)" for k
    by (simp add: state_after_def s0 and_then_def run_loop_steps [OF ready])
  moreover have "script ag rand = Inr (steps ag [0..<200] s0)"
    by (simp add: script_def training_loop_def s0 and_then_def run_loop_steps [OF ready])
  ultimately show ?thesis
    using s0 ready by blast
qed

lemma steps_snoc:
  "steps ag (idx @ [i]) s = next_state ag i (steps ag idx s)"
  by simp

lemma steps_nth:
  assumes "k < n"
  shows "loss_history (steps ag [0..<n] s) ! (length (loss_history s) + k) =
           last (loss_history (next_state ag k (steps ag [0..<k] s))) \<and>
         exp_history (steps ag [0..<n] s) ! (length (exp_history s) + k) =
           last (exp_history (next_state ag k (steps ag [0..<k] s)))"
proof -
  let ?sk = "steps ag [0..<k] s"
  let ?sk' = "next_state ag k ?sk"
  have split: "[0..<n] = [0..<Suc k] @ [Suc k..<n]"
    using assms by (metis Suc_leI le0 upt_add_eq_append le_add_diff_inverse)
  have sk': "steps ag [0..<Suc k] s = ?sk'"
    by simp
  have final: "steps ag [0..<n] s = steps ag [Suc k..<n] ?sk'"
    by (subst split, subst foldl_append, subst sk') simp
  obtain ls es where
    l: "loss_history (steps ag [Suc k..<n] ?sk') = loss_history ?sk' @ ls" and
    e: "exp_history (steps ag [Suc k..<n] ?sk') = exp_history ?sk' @ es"
    using steps_prefix [where ag = ag and idx = "[Suc k..<n]" and s = ?sk'] by blast
  have len: "length (loss_history ?sk) = length (loss_history s) + k"
    "length (exp_history ?sk) = length (exp_history s) + k"
    using steps_lengths [where ag = ag and idx = "[0..<k]" and s = s] by simp_all
  have "loss_history ?sk' = loss_history ?sk @ [last (loss_history ?sk')]"
    "exp_history ?sk' = exp_history ?sk @ [last (exp_history ?sk')]"
    by (simp_all add: next_state_def Let_def)
  then show ?thesis
    using l e len final by (metis nth_append_length append_assoc append_Cons)
qed

section \<open>One iteration of the loop\<close>

lemma ready_forward_rmse:
  assumes "loop_ready s"
  shows "\<exists>e y_hat l. exp_hat s = [e] \<and> forward (x_var s) (exp_hat s) = Inr y_hat \<and>
           rmse (y_var s) y_hat = Inr [l] \<and>
           next_state ag i s =
             s\<lparr>printed := printed s @ [Iteration_line i, Loss_line l, Exp_line e],
               loss_history := loss_history s @ [l],
               exp_history := exp_history s @ [hd y_hat],
               exp_hat := [fsub e (fmul (ag (x_var s) (y_var s) e) (Fin learning_rate))],
               exp_hat_grad := Some [Fin 0]\<rparr>"
proof -
  obtain e where e: "exp_hat s = [e]"
    using assms exp_hat_single by (auto simp: loop_ready_def)
  let ?y_hat = "map (\<lambda>v. fpow v e) (x_var s)"
  let ?l = "fsqrt (sum_all (map2 (\<lambda>a b. fmul (fsub a b) (fsub a b)) (y_var s) ?y_hat))"
  have len: "length (y_var s) = length ?y_hat"
    using assms by (simp add: loop_ready_def)
  have "forward (x_var s) (exp_hat s) = Inr ?y_hat"
    by (simp add: e forward_single)
  moreover have "rmse (y_var s) ?y_hat = Inr [?l]"
    using len by (rule rmse_general)
  moreover have "next_state ag i s =
      s\<lparr>printed := printed s @ [Iteration_line i, Loss_line ?l, Exp_line e],
        loss_history := loss_history s @ [?l],
        exp_history := exp_history s @ [hd ?y_hat],
        exp_hat := [fsub e (fmul (ag (x_var s) (y_var s) e) (Fin learning_rate))],
        exp_hat_grad := Some [Fin 0]\<rparr>"
    by (simp add: next_state_def e Let_def)
  ultimately show ?thesis
    using e by blast
qed

text \<open>
  Claim C4. From a state that satisfies the invariant of the loop, one iteration computes
  the prediction from the current estimate, the loss of the prediction against the targets,
  appends to both histories, and ends with the estimate replaced, once, by the estimate less
  5e-6 times the gradient taken at the value the loss was computed from, and with the stored
  gradient reset to zero. The console shows the order: the iteration index, the loss, and
  the estimate before its update. Every state the script's loop reaches satisfies the
  invariant, and the state after \<open>k + 1\<close> iterations is the body run with index \<open>k\<close>
  on the state after \<open>k\<close>. The gradient is the library's, a parameter here.
\<close>

theorem iteration_order_and_update:
  "(loop_ready s \<longrightarrow>
      (\<exists>e y_hat l. exp_hat s = [e] \<and> forward (x_var s) (exp_hat s) = Inr y_hat \<and>
         rmse (y_var s) y_hat = Inr [l] \<and>
         iteration ag i s =
           Inr (s\<lparr>printed := printed s @ [Iteration_line i, Loss_line l, Exp_line e],
                  loss_history := loss_history s @ [l],
                  exp_history := exp_history s @ [hd y_hat],
                  exp_hat := [fsub e (fmul (ag (x_var s) (y_var s) e) (Fin (5 / 1000000)))],
                  exp_hat_grad := Some [Fin 0]\<rparr>))) \<and>
   (length (rand n_examples) = n_examples \<longrightarrow>
      (\<forall>k. \<exists>sk. state_after ag rand k = Inr sk \<and> loop_ready sk \<and>
         state_after ag rand (Suc k) = iteration ag k sk))"
proof (intro conjI impI)
  assume ready: "loop_ready s"
  show "\<exists>e y_hat l. exp_hat s = [e] \<and> forward (x_var s) (exp_hat s) = Inr y_hat \<and>
         rmse (y_var s) y_hat = Inr [l] \<and>
         iteration ag i s =
           Inr (s\<lparr>printed := printed s @ [Iteration_line i, Loss_line l, Exp_line e],
                  loss_history := loss_history s @ [l],
                  exp_history := exp_history s @ [hd y_hat],
                  exp_hat := [fsub e (fmul (ag (x_var s) (y_var s) e) (Fin (5 / 1000000)))],
                  exp_hat_grad := Some [Fin 0]\<rparr>)"
    using ready_forward_rmse [OF ready, of ag i] iteration_next [OF ready, of ag i]
    by (simp add: learning_rate_def)
next
  assume len: "length (rand n_examples) = n_examples"
  obtain s0 where
    ready: "loop_ready s0" and after: "\<And>k. state_after ag rand k = Inr (steps ag [0..<k] s0)"
    using state_after_steps [where rand = rand and ag = ag] len by blast
  show "\<forall>k. \<exists>sk. state_after ag rand k = Inr sk \<and> loop_ready sk \<and>
         state_after ag rand (Suc k) = iteration ag k sk"
  proof
    fix k
    have "loop_ready (steps ag [0..<k] s0)"
      using ready by (rule steps_ready)
    moreover from this have "state_after ag rand (Suc k) = iteration ag k (steps ag [0..<k] s0)"
      by (simp add: after iteration_next)
    ultimately show "\<exists>sk. state_after ag rand k = Inr sk \<and> loop_ready sk \<and>
         state_after ag rand (Suc k) = iteration ag k sk"
      using after by blast
  qed
qed


theorem iteration_order_and_update_witness:
  "loop_ready \<lparr>x_var = [Fin 2], exp_var = [Fin 2], exp_hat = [Fin 4], exp_hat_grad = None,
      y_var = [Fin 4], loss_history = [], exp_history = [], printed = []\<rparr> \<and>
   (\<exists>s'. iteration (\<lambda>x y e. Fin 1000) 0
          \<lparr>x_var = [Fin 2], exp_var = [Fin 2], exp_hat = [Fin 4], exp_hat_grad = None,
            y_var = [Fin 4], loss_history = [], exp_history = [], printed = []\<rparr> = Inr s' \<and>
        exp_hat s' = [Fin (3995 / 1000)] \<and> exp_history s' = [Fin 16] \<and>
        exp_hat_grad s' = Some [Fin 0]) \<and>
   length (replicate n_examples (Fin (1 / 2))) = n_examples \<and>
   (\<exists>sk. state_after (\<lambda>x y e. Fin 1000) (\<lambda>k. replicate k (Fin (1 / 2))) 7 = Inr sk \<and>
      loop_ready sk)"
proof -
  let ?s = "\<lparr>x_var = [Fin 2], exp_var = [Fin 2], exp_hat = [Fin 4], exp_hat_grad = None,
      y_var = [Fin 4], loss_history = [], exp_history = [], printed = []\<rparr>"
  have ready: "loop_ready ?s"
    by (simp add: loop_ready_def)
  have len: "length (replicate n_examples (Fin (1 / 2))) = n_examples"
    by simp
  note claim = iteration_order_and_update
    [of ?s "\<lambda>x y e. Fin 1000" 0 "\<lambda>k. replicate k (Fin (1 / 2))"]
  from claim ready obtain e y_hat l where
    "exp_hat ?s = [e]" "forward (x_var ?s) (exp_hat ?s) = Inr y_hat"
    "iteration (\<lambda>x y e. Fin 1000) 0 ?s =
       Inr (?s\<lparr>printed := printed ?s @ [Iteration_line 0, Loss_line l, Exp_line e],
              loss_history := loss_history ?s @ [l],
              exp_history := exp_history ?s @ [hd y_hat],
              exp_hat := [fsub e (fmul (Fin 1000) (Fin (5 / 1000000)))],
              exp_hat_grad := Some [Fin 0]\<rparr>)"
    by auto
  then have "\<exists>s'. iteration (\<lambda>x y e. Fin 1000) 0 ?s = Inr s' \<and>
        exp_hat s' = [Fin (3995 / 1000)] \<and> exp_history s' = [Fin 16] \<and>
        exp_hat_grad s' = Some [Fin 0]"
    by (auto simp: forward_single pow_fin_def fsub_def)
  moreover from claim len have
    "\<exists>sk. state_after (\<lambda>x y e. Fin 1000) (\<lambda>k. replicate k (Fin (1 / 2))) 7 = Inr sk \<and>
      loop_ready sk"
    by blast
  ultimately show ?thesis
    using ready len by blast
qed

section \<open>The whole loop\<close>

text \<open>
  Claim C5. When the generator returns the samples asked for, the script ends without an
  exception after the iterations 0 to 199, all of them announced on the console, whatever
  the losses are; each history then has 200 entries, and the entry at index \<open>k\<close> is the
  one recorded by the iteration \<open>k\<close>, from the state after \<open>k\<close> iterations.
\<close>

theorem training_runs_200_iterations:
  "length (rand n_examples) = n_examples \<longrightarrow>
     (\<exists>s. script ag rand = Inr s \<and>
        length (loss_history s) = 200 \<and> length (exp_history s) = 200 \<and>
        iterations_printed (printed s) = [0..<200] \<and>
        (\<forall>k<200. \<exists>sk y_hat l.
           state_after ag rand k = Inr sk \<and>
           forward (x_var sk) (exp_hat sk) = Inr y_hat \<and>
           rmse (y_var sk) y_hat = Inr [l] \<and>
           loss_history s ! k = l \<and> exp_history s ! k = hd y_hat))"
proof
  assume len: "length (rand n_examples) = n_examples"
  obtain s0 where s0: "initial_state rand = Inr s0" and ready: "loop_ready s0"
    and after: "\<And>k. state_after ag rand k = Inr (steps ag [0..<k] s0)"
    and final: "script ag rand = Inr (steps ag [0..<200] s0)"
    using state_after_steps [where rand = rand and ag = ag] len by blast
  let ?s = "steps ag [0..<200] s0"
  have empty: "loss_history s0 = []" "exp_history s0 = []" "printed s0 = []"
    using s0 by (auto simp: initial_state_eq)
  have lengths: "length (loss_history ?s) = 200" "length (exp_history ?s) = 200"
    using steps_lengths [where ag = ag and idx = "[0..<200]" and s = s0] empty by simp_all
  have announced: "iterations_printed (printed ?s) = [0..<200]"
    using steps_iterations_printed [where ag = ag and idx = "[0..<200]" and s = s0] empty
    by simp
  have order: "\<exists>sk y_hat l.
           state_after ag rand k = Inr sk \<and>
           forward (x_var sk) (exp_hat sk) = Inr y_hat \<and>
           rmse (y_var sk) y_hat = Inr [l] \<and>
           loss_history ?s ! k = l \<and> exp_history ?s ! k = hd y_hat" if "k < 200" for k
  proof -
    let ?sk = "steps ag [0..<k] s0"
    have "loop_ready ?sk"
      using ready by (rule steps_ready)
    from ready_forward_rmse [OF this, of ag k] obtain e y_hat l where
      f: "forward (x_var ?sk) (exp_hat ?sk) = Inr y_hat" and
      r: "rmse (y_var ?sk) y_hat = Inr [l]" and
      n: "last (loss_history (next_state ag k ?sk)) = l"
         "last (exp_history (next_state ag k ?sk)) = hd y_hat"
      by fastforce
    have "loss_history ?s ! k = l" "exp_history ?s ! k = hd y_hat"
      using steps_nth [OF that, where ag = ag and s = s0] n empty by simp_all
    with f r after show ?thesis by blast
  qed
  show "\<exists>s. script ag rand = Inr s \<and>
        length (loss_history s) = 200 \<and> length (exp_history s) = 200 \<and>
        iterations_printed (printed s) = [0..<200] \<and>
        (\<forall>k<200. \<exists>sk y_hat l.
           state_after ag rand k = Inr sk \<and>
           forward (x_var sk) (exp_hat sk) = Inr y_hat \<and>
           rmse (y_var sk) y_hat = Inr [l] \<and>
           loss_history s ! k = l \<and> exp_history s ! k = hd y_hat)"
    using final lengths announced order by blast
qed

theorem training_runs_200_iterations_witness:
  "length (replicate n_examples (Fin (1 / 2))) = n_examples \<and>
   (\<exists>s. script (\<lambda>x y e. Fin 1000) (\<lambda>k. replicate k (Fin (1 / 2))) = Inr s \<and>
      length (loss_history s) = 200 \<and> length (exp_history s) = 200 \<and>
      (199::nat) < 200 \<and> exp_history s ! 0 = Fin 625)"
proof -
  have len: "length (replicate n_examples (Fin (1 / 2))) = n_examples"
    by simp
  from training_runs_200_iterations
    [of "\<lambda>k. replicate k (Fin (1 / 2))" "\<lambda>x y e. Fin 1000"] len
  obtain s where s: "script (\<lambda>x y e. Fin 1000) (\<lambda>k. replicate k (Fin (1 / 2))) = Inr s"
    "length (loss_history s) = 200" "length (exp_history s) = 200"
    and order: "\<forall>k<200. \<exists>sk y_hat l.
           state_after (\<lambda>x y e. Fin 1000) (\<lambda>k. replicate k (Fin (1 / 2))) k = Inr sk \<and>
           forward (x_var sk) (exp_hat sk) = Inr y_hat \<and>
           rmse (y_var sk) y_hat = Inr [l] \<and>
           loss_history s ! k = l \<and> exp_history s ! k = hd y_hat"
    by blast
  from order obtain sk y_hat where
    "state_after (\<lambda>x y e. Fin 1000) (\<lambda>k. replicate k (Fin (1 / 2))) 0 = Inr sk"
    "forward (x_var sk) (exp_hat sk) = Inr y_hat" "exp_history s ! 0 = hd y_hat"
    by force
  then have "exp_history s ! 0 = Fin 625"
    by (auto simp: state_after_def initial_state_eq and_then_def forward_single mul_number_def
        n_examples_def pow_fin_def)
  with s len show ?thesis by auto
qed

section \<open>What the loop leaves alone\<close>

lemma backward_frame:
  "backward ag s = Inr t \<Longrightarrow>
   x_var t = x_var s \<and> y_var t = y_var s \<and> exp_var t = exp_var s \<and>
   loss_history t = loss_history s \<and> exp_history t = exp_history s"
  by (auto simp: backward_def and_then_def Let_def split: option.splits sum.splits)

lemma update_frame:
  "update s = Inr t \<Longrightarrow>
   x_var t = x_var s \<and> y_var t = y_var s \<and> exp_var t = exp_var s \<and>
   loss_history t = loss_history s \<and> exp_history t = exp_history s"
  by (auto simp: update_def and_then_def split: option.splits sum.splits)

lemma zero_grad_frame:
  "zero_grad s = Inr t \<Longrightarrow>
   x_var t = x_var s \<and> y_var t = y_var s \<and> exp_var t = exp_var s \<and>
   loss_history t = loss_history s \<and> exp_history t = exp_history s"
  by (auto simp: zero_grad_def split: option.splits)

lemma iteration_frame:
  assumes "iteration ag i s = Inr s'"
  shows "x_var s' = x_var s \<and> y_var s' = y_var s \<and> exp_var s' = exp_var s \<and>
         (\<exists>l. loss_history s' = loss_history s @ [l]) \<and>
         (\<exists>p. exp_history s' = exp_history s @ [p])"
proof -
  from assms obtain loss0 y_hat0 s4 loss0' e0 s7 where
    b: "backward ag (s\<lparr>printed := printed s @ [Iteration_line i],
          loss_history := loss_history s @ [loss0],
          exp_history := exp_history s @ [y_hat0]\<rparr>) = Inr s4" and
    u: "update (s4\<lparr>printed := printed s4 @ [Loss_line loss0', Exp_line e0]\<rparr>) = Inr s7" and
    z: "zero_grad s7 = Inr s'"
    by (auto simp: iteration_def and_then_def Let_def split: sum.splits)
  from backward_frame [OF b] update_frame [OF u] zero_grad_frame [OF z]
  have "x_var s' = x_var s" "y_var s' = y_var s" "exp_var s' = exp_var s"
    "loss_history s' = loss_history s @ [loss0]" "exp_history s' = exp_history s @ [y_hat0]"
    by simp_all
  then show ?thesis by blast
qed

lemma run_loop_frame:
  "run_loop ag idx s = Inr s' \<Longrightarrow>
   x_var s' = x_var s \<and> y_var s' = y_var s \<and> exp_var s' = exp_var s \<and>
   (\<exists>ls. loss_history s' = loss_history s @ ls) \<and>
   (\<exists>ps. exp_history s' = exp_history s @ ps)"
proof (induction idx arbitrary: s)
  case Nil
  then show ?case by simp
next
  case (Cons i idx)
  then obtain t where t: "iteration ag i s = Inr t" and rest: "run_loop ag idx t = Inr s'"
    by (auto simp: and_then_def split: sum.splits)
  from iteration_frame [OF t] Cons.IH [OF rest] show ?case
    by (metis append_assoc)
qed

text \<open>
  Claim C6. An iteration that ends normally, from any state, leaves the samples, the
  targets and the target exponent as they were and appends one entry to each history; so
  does any number of iterations. In the script the samples are the generator's draw times
  ten and the targets are the forward function of the samples and the target exponent,
  both computed before the loop, and they are the same after every number of iterations.
\<close>

theorem samples_and_targets_unchanged:
  "(iteration ag i s = Inr s' \<longrightarrow>
      x_var s' = x_var s \<and> y_var s' = y_var s \<and> exp_var s' = exp_var s \<and>
      (\<exists>l. loss_history s' = loss_history s @ [l]) \<and>
      (\<exists>p. exp_history s' = exp_history s @ [p])) \<and>
   (run_loop ag idx t = Inr t' \<longrightarrow>
      x_var t' = x_var t \<and> y_var t' = y_var t \<and> exp_var t' = exp_var t \<and>
      (\<exists>ls. loss_history t' = loss_history t @ ls) \<and>
      (\<exists>ps. exp_history t' = exp_history t @ ps)) \<and>
   (length (rand n_examples) = n_examples \<longrightarrow>
      (\<forall>k. \<exists>sk. state_after ag rand k = Inr sk \<and>
         x_var sk = mul_number (rand n_examples) 10 \<and>
         forward (x_var sk) [Fin target_exp] = Inr (y_var sk)))"
proof -
  have body: "iteration ag i s = Inr s' \<longrightarrow>
      x_var s' = x_var s \<and> y_var s' = y_var s \<and> exp_var s' = exp_var s \<and>
      (\<exists>l. loss_history s' = loss_history s @ [l]) \<and>
      (\<exists>p. exp_history s' = exp_history s @ [p])"
    using iteration_frame by blast
  have loop: "run_loop ag idx t = Inr t' \<longrightarrow>
      x_var t' = x_var t \<and> y_var t' = y_var t \<and> exp_var t' = exp_var t \<and>
      (\<exists>ls. loss_history t' = loss_history t @ ls) \<and>
      (\<exists>ps. exp_history t' = exp_history t @ ps)"
    using run_loop_frame by blast
  have run: "length (rand n_examples) = n_examples \<longrightarrow>
      (\<forall>k. \<exists>sk. state_after ag rand k = Inr sk \<and>
         x_var sk = mul_number (rand n_examples) 10 \<and>
         forward (x_var sk) [Fin target_exp] = Inr (y_var sk))"
  proof
    assume len: "length (rand n_examples) = n_examples"
    obtain s0 where s0: "initial_state rand = Inr s0"
      and after: "\<And>k. state_after ag rand k = Inr (steps ag [0..<k] s0)"
      using state_after_steps [where rand = rand and ag = ag] len by blast
    have "x_var s0 = mul_number (rand n_examples) 10"
      "forward (x_var s0) [Fin target_exp] = Inr (y_var s0)"
      using s0 by (auto simp: initial_state_eq forward_single)
    then have "x_var (steps ag [0..<k] s0) = mul_number (rand n_examples) 10 \<and>
        forward (x_var (steps ag [0..<k] s0)) [Fin target_exp] =
          Inr (y_var (steps ag [0..<k] s0))" for k
      using steps_frame [where ag = ag and idx = "[0..<k]" and s = s0] by simp
    with after show "\<forall>k. \<exists>sk. state_after ag rand k = Inr sk \<and>
         x_var sk = mul_number (rand n_examples) 10 \<and>
         forward (x_var sk) [Fin target_exp] = Inr (y_var sk)"
      by blast
  qed
  show ?thesis
    by (rule conjI [OF body conjI [OF loop run]])
qed

theorem samples_and_targets_unchanged_witness:
  "(\<exists>s'. iteration (\<lambda>x y e. Fin 1000) 0
          \<lparr>x_var = [Fin 2], exp_var = [Fin 2], exp_hat = [Fin 4], exp_hat_grad = None,
            y_var = [Fin 4], loss_history = [], exp_history = [], printed = []\<rparr> = Inr s' \<and>
        x_var s' = [Fin 2] \<and> y_var s' = [Fin 4]) \<and>
   (\<exists>t'. run_loop (\<lambda>x y e. Fin 1000) [0, 1]
          \<lparr>x_var = [Fin 2], exp_var = [Fin 2], exp_hat = [Fin 4], exp_hat_grad = None,
            y_var = [Fin 4], loss_history = [], exp_history = [], printed = []\<rparr> = Inr t' \<and>
        x_var t' = [Fin 2] \<and> y_var t' = [Fin 4]) \<and>
   length (replicate n_examples (Fin (1 / 2))) = n_examples \<and>
   (\<exists>sk. state_after (\<lambda>x y e. Fin 1000) (\<lambda>k. replicate k (Fin (1 / 2))) 200 = Inr sk \<and>
      x_var sk = replicate 100 (Fin 5))"
proof -
  let ?s = "\<lparr>x_var = [Fin 2], exp_var = [Fin 2], exp_hat = [Fin 4], exp_hat_grad = None,
      y_var = [Fin 4], loss_history = [], exp_history = [], printed = []\<rparr>"
  let ?ag = "\<lambda>(x::tensor) (y::tensor) (e::scalar). Fin 1000"
  let ?rand = "\<lambda>k. replicate k (Fin (1 / 2))"
  have ready: "loop_ready ?s"
    by (simp add: loop_ready_def)
  have one: "iteration ?ag 0 ?s = Inr (next_state ?ag 0 ?s)"
    using ready by (rule iteration_next)
  have two: "run_loop ?ag [0, 1] ?s = Inr (steps ?ag [0, 1] ?s)"
    using ready by (rule run_loop_steps)
  have len: "length (?rand n_examples) = n_examples"
    by simp
  note claim = samples_and_targets_unchanged
    [of ?ag 0 ?s "next_state ?ag 0 ?s" "[0, 1]" ?s "steps ?ag [0, 1] ?s" ?rand]
  from claim one have "\<exists>s'. iteration ?ag 0 ?s = Inr s' \<and> x_var s' = [Fin 2] \<and> y_var s' = [Fin 4]"
    by simp
  moreover from claim two
  have "\<exists>t'. run_loop ?ag [0, 1] ?s = Inr t' \<and> x_var t' = [Fin 2] \<and> y_var t' = [Fin 4]"
    by simp
  moreover from claim len
  have "\<exists>sk. state_after ?ag ?rand 200 = Inr sk \<and> x_var sk = replicate 100 (Fin 5)"
    by (auto simp: mul_number_def n_examples_def)
  ultimately show ?thesis
    using len by blast
qed

section \<open>What the parameter history holds\<close>

lemma loss_of_constant:
  "fsqrt (sum_all (map2 (\<lambda>a b. fmul (fsub a b) (fsub a b))
      (replicate n (Fin a)) (replicate n (Fin b)))) = Fin (sqrt (real n * (a - b)\<^sup>2))"
proof -
  have "map2 (\<lambda>a b. fmul (fsub a b) (fsub a b)) (replicate n (Fin a)) (replicate n (Fin b)) =
      map Fin (replicate n ((a - b)\<^sup>2))"
    by (simp add: zip_replicate fsub_def power2_eq_square)
  moreover have "0 \<le> real n * (a - b)\<^sup>2"
    by simp
  ultimately show ?thesis
    by (simp only: sum_all_Fin sum_list_replicate) (simp add: not_less)
qed

lemma steps_first:
  assumes "0 < n"
  shows "\<exists>ps. printed (steps ag [0..<n] s) = printed (next_state ag 0 s) @ ps"
proof -
  have "[0..<n] = 0 # [1..<n]"
    using assms by (simp add: upt_conv_Cons)
  then have "steps ag [0..<n] s = steps ag [1..<n] (next_state ag 0 s)"
    by simp
  then show ?thesis
    using steps_prefix [where ag = ag and idx = "[1..<n]" and s = "next_state ag 0 s"]
    by metis
qed

text \<open>
  Claim C1. The claim is that each iteration records the current loss and the current
  value of the exponent estimate. The source appends \<^verbatim>\<open>y_hat.data[0]\<close>, the first
  predicted output, to \<^verbatim>\<open>exp_history\<close>, while it prints \<^verbatim>\<open>exp_hat.data[0]\<close> as the
  estimate. For the draw of one hundred times 0.5, so the samples are one hundred times 5,
  and for every gradient function: the script ends normally; the estimate at the first
  iteration is 4 and the console shows 4; the loss history begins with the loss 6000; the
  parameter history begins with 625, the first sample to the power 4, and not with 4.
\<close>

theorem exp_history_holds_first_prediction:
  "\<exists>s0 s. state_after ag (\<lambda>k. replicate k (Fin (1 / 2))) 0 = Inr s0 \<and>
     script ag (\<lambda>k. replicate k (Fin (1 / 2))) = Inr s \<and>
     x_var s0 = replicate 100 (Fin 5) \<and> exp_hat s0 = [Fin 4] \<and>
     loss_history s ! 0 = Fin 6000 \<and>
     exp_history s ! 0 = Fin 625 \<and>
     printed s ! 2 = Exp_line (Fin 4)"
proof -
  let ?rand = "\<lambda>k. replicate k (Fin (1 / 2))"
  have len: "length (?rand n_examples) = n_examples"
    by simp
  obtain s0 where s0: "initial_state ?rand = Inr s0"
    and after: "\<And>k. state_after ag ?rand k = Inr (steps ag [0..<k] s0)"
    and final: "script ag ?rand = Inr (steps ag [0..<200] s0)"
    using state_after_steps [where rand = ?rand and ag = ag] len by blast
  let ?s = "steps ag [0..<200] s0"
  have fields: "x_var s0 = replicate 100 (Fin 5)" "y_var s0 = replicate 100 (Fin 25)"
    "exp_hat s0 = [Fin 4]" "loss_history s0 = []" "exp_history s0 = []" "printed s0 = []"
    using s0 by (auto simp: initial_state_eq mul_number_def n_examples_def target_exp_def
        pow_fin_def)
  have "sqrt (real 100 * (25 - 625)\<^sup>2) = 6000"
    by (rule real_sqrt_unique) simp_all
  then have loss: "fsqrt (sum_all (map2 (\<lambda>a b. fmul (fsub a b) (fsub a b))
      (replicate 100 (Fin 25)) (replicate 100 (Fin 625)))) = Fin 6000"
    by (simp only: loss_of_constant)
  have first: "loss_history (next_state ag 0 s0) = [Fin 6000]"
    "exp_history (next_state ag 0 s0) = [Fin 625]"
    "printed (next_state ag 0 s0) = [Iteration_line 0, Loss_line (Fin 6000), Exp_line (Fin 4)]"
    using loss by (simp_all add: next_state_def Let_def fields pow_fin_def)
  have "loss_history ?s ! 0 = Fin 6000" "exp_history ?s ! 0 = Fin 625"
    using steps_nth [where k = 0 and n = 200 and ag = ag and s = s0] first fields by simp_all
  moreover have "printed ?s ! 2 = Exp_line (Fin 4)"
    using steps_first [where n = 200 and ag = ag and s = s0] first by auto
  moreover have "state_after ag ?rand 0 = Inr s0"
    using after [of 0] by simp
  ultimately show ?thesis
    using final fields by blast
qed

section \<open>The samples\<close>

lemma fpow_nonneg_not_NaN: "0 \<le> u \<Longrightarrow> e \<noteq> NaN \<Longrightarrow> fpow (Fin u) e \<noteq> NaN"
  by (cases e) (auto simp: pow_fin_def)

lemma scaled_sample:
  "0 \<le> u \<and> u < 1 \<Longrightarrow> fmul (Fin u) (Fin 10) = Fin (u * 10) \<and> 0 \<le> u * 10 \<and> u * 10 < 10"
  by simp

text \<open>
  Claim C8. When the generator returns the 100 samples asked for, each a finite number at
  least 0 and below 1, the script's samples are 100 finite numbers at least 0 and below
  10; the forward function on them, with any exponent that is a number or infinite, has
  no NaN among its results; and the loop applies the forward function to these samples
  only, since the samples of every later state are the same.
\<close>

theorem samples_in_range_and_power_defined:
  "length (rand n_examples) = n_examples \<and>
   (\<forall>v\<in>set (rand n_examples). \<exists>u. v = Fin u \<and> 0 \<le> u \<and> u < 1) \<longrightarrow>
     (\<exists>s. initial_state rand = Inr s \<and> length (x_var s) = 100 \<and>
        (\<forall>v\<in>set (x_var s). \<exists>u. v = Fin u \<and> 0 \<le> u \<and> u < 10) \<and>
        (\<forall>e. \<exists>out. forward (x_var s) [e] = Inr out \<and> (e \<noteq> NaN \<longrightarrow> NaN \<notin> set out)) \<and>
        (\<forall>k. \<exists>sk. state_after ag rand k = Inr sk \<and> x_var sk = x_var s))"
proof
  assume contract: "length (rand n_examples) = n_examples \<and>
    (\<forall>v\<in>set (rand n_examples). \<exists>u. v = Fin u \<and> 0 \<le> u \<and> u < 1)"
  then have len: "length (rand n_examples) = n_examples" by simp
  obtain s0 where s0: "initial_state rand = Inr s0"
    and after: "\<And>k. state_after ag rand k = Inr (steps ag [0..<k] s0)"
    using state_after_steps [where rand = rand and ag = ag] len by blast
  have x: "x_var s0 = mul_number (rand n_examples) 10"
    using s0 by (auto simp: initial_state_eq)
  have count: "length (x_var s0) = 100"
    using len by (simp add: x mul_number_def n_examples_def)
  have range: "\<forall>v\<in>set (x_var s0). \<exists>u. v = Fin u \<and> 0 \<le> u \<and> u < 10"
  proof
    fix v assume "v \<in> set (x_var s0)"
    then obtain w where "w \<in> set (rand n_examples)" "v = fmul w (Fin 10)"
      by (auto simp: x mul_number_def)
    moreover from this contract obtain u where "w = Fin u" "0 \<le> u \<and> u < 1"
      by blast
    ultimately show "\<exists>u. v = Fin u \<and> 0 \<le> u \<and> u < 10"
      using scaled_sample by blast
  qed
  have defined: "\<exists>out. forward (x_var s0) [e] = Inr out \<and> (e \<noteq> NaN \<longrightarrow> NaN \<notin> set out)" for e
  proof -
    have "NaN \<notin> set (map (\<lambda>v. fpow v e) (x_var s0))" if "e \<noteq> NaN"
    proof
      assume "NaN \<in> set (map (\<lambda>v. fpow v e) (x_var s0))"
      then obtain v where "v \<in> set (x_var s0)" "fpow v e = NaN"
        by auto
      moreover from this range obtain u where "v = Fin u" "0 \<le> u"
        by blast
      ultimately show False
        using fpow_nonneg_not_NaN [OF _ that] by blast
    qed
    then show ?thesis
      by (simp add: forward_single)
  qed
  have same: "\<exists>sk. state_after ag rand k = Inr sk \<and> x_var sk = x_var s0" for k
    using after [of k] steps_frame [where ag = ag and idx = "[0..<k]" and s = s0] by simp
  show "\<exists>s. initial_state rand = Inr s \<and> length (x_var s) = 100 \<and>
        (\<forall>v\<in>set (x_var s). \<exists>u. v = Fin u \<and> 0 \<le> u \<and> u < 10) \<and>
        (\<forall>e. \<exists>out. forward (x_var s) [e] = Inr out \<and> (e \<noteq> NaN \<longrightarrow> NaN \<notin> set out)) \<and>
        (\<forall>k. \<exists>sk. state_after ag rand k = Inr sk \<and> x_var sk = x_var s)"
    using s0 count range defined same by blast
qed

theorem samples_in_range_and_power_defined_witness:
  "length (replicate n_examples (Fin (1 / 2))) = n_examples \<and>
   (\<exists>s. initial_state (\<lambda>k. replicate k (Fin (1 / 2))) = Inr s \<and>
      x_var s = replicate 100 (Fin 5) \<and>
      (\<exists>out. forward (x_var s) [Fin (5 / 2)] = Inr out \<and> NaN \<notin> set out))"
proof -
  have contract: "length (replicate n_examples (Fin (1 / 2))) = n_examples \<and>
    (\<forall>v\<in>set (replicate n_examples (Fin (1 / 2))). \<exists>u. v = Fin u \<and> 0 \<le> u \<and> u < 1)"
    by (auto intro!: exI [of _ "1 / 2"])
  from samples_in_range_and_power_defined
    [of "\<lambda>k. replicate k (Fin (1 / 2))" "\<lambda>x y e. Fin 1000"] contract
  obtain s where s: "initial_state (\<lambda>k. replicate k (Fin (1 / 2))) = Inr s"
    and defined:
      "\<forall>e. \<exists>out. forward (x_var s) [e] = Inr out \<and> (e \<noteq> NaN \<longrightarrow> NaN \<notin> set out)"
    by blast
  from s have "x_var s = replicate 100 (Fin 5)"
    by (auto simp: initial_state_eq mul_number_def n_examples_def)
  moreover from defined have "\<exists>out. forward (x_var s) [Fin (5 / 2)] = Inr out \<and> NaN \<notin> set out"
    by (metis scalar.distinct(5))
  ultimately show ?thesis
    using s contract by blast
qed

section \<open>The loss over the reals and its derivative\<close>










section \<open>Sign and size of the slope\<close>








section \<open>A bound on the slope\<close>













section \<open>Descent of the estimate\<close>








section \<open>The final estimate\<close>






end
